theory Spec2Isabelle
  imports Main "HOL-Library.Multiset"
begin

section \<open>Data model\<close>

text \<open>
  The two tables of \<^verbatim>\<open>server/src/db/schema.ts\<close>. A row is a record; the column
  names carry a prefix (\<open>u_\<close> for \<^verbatim>\<open>users\<close>, \<open>t_\<close> for \<^verbatim>\<open>tasks\<close>) because both
  tables have columns \<^verbatim>\<open>id\<close> and \<^verbatim>\<open>created_at\<close>. A timestamp is the number of
  milliseconds of a JavaScript \<^verbatim>\<open>Date\<close>.
\<close>

type_synonym timestamp = int

record user =
  u_id :: int
  u_email :: string
  u_password_hash :: string
  u_created_at :: timestamp

record task =
  t_id :: int
  t_user_id :: int
  t_title :: string
  t_description :: string
  t_due_date :: timestamp
  t_completed :: bool
  t_created_at :: timestamp

text \<open>
  The database the handlers reach through \<^verbatim>\<open>db\<close>: each table is the list of its rows
  in the order in which a scan yields them, and each \<^verbatim>\<open>serial\<close> column has its
  sequence. SQL promises nothing about the scan order of a table; the list fixes one.
  A statement sent to the store is taken to run: lost connections are left out, and each
  handler tests for the row it needs before it writes.
\<close>

record db =
  users :: "user list"
  tasks :: "task list"
  users_id_seq :: int
  tasks_id_seq :: int

text \<open>
  Handlers throw \<^verbatim>\<open>new Error(message)\<close>; callers and tests tell failures apart by the
  message alone. The procedure layer rejects an input that fails its schema with a
  \<^verbatim>\<open>BAD_REQUEST\<close> error before the handler is called. Reading a field of
  \<^verbatim>\<open>result[0]\<close> when the result is empty is a \<^verbatim>\<open>TypeError\<close>. Every handler
  logs what it catches and throws it again; the log is left out.
\<close>

datatype error = Error string | BAD_REQUEST | TypeError

text \<open>
  The inputs of \<^verbatim>\<open>server/src/schema.ts\<close>. \<^verbatim>\<open>RegisterUserInput\<close> and
  \<^verbatim>\<open>LoginUserInput\<close> are the same structural type, and so are
  \<^verbatim>\<open>DeleteTaskInput\<close> and \<^verbatim>\<open>ShareTaskInput\<close>. An optional field is an option.
\<close>

record credentials_input =
  in_email :: string
  in_password :: string

type_synonym RegisterUserInput = credentials_input
type_synonym LoginUserInput = credentials_input

record create_task_input =
  c_user_id :: int
  c_title :: string
  c_description :: string
  c_due_date :: timestamp
  c_completed :: bool

record update_task_input =
  up_id :: int
  up_title :: "string option"
  up_description :: "string option"
  up_due_date :: "timestamp option"
  up_completed :: "bool option"


record task_key_input =
  k_id :: int
  k_user_id :: int

type_synonym DeleteTaskInput = task_key_input
type_synonym ShareTaskInput = task_key_input

text \<open>The responses: the user without the password hash, and the share text.\<close>

record auth_user =
  a_id :: int
  a_email :: string
  a_created_at :: timestamp

record auth_response =
  ar_user :: auth_user

record share_task_response =
  shareText :: string

record delete_task_response =
  success :: bool

section \<open>Strings and buffers of the JavaScript runtime\<close>

text \<open>
  A template literal renders a number with \<^verbatim>\<open>Number.prototype.toString\<close>: for an
  integer in the range of a \<^verbatim>\<open>serial\<close> column, its decimal digits, after a minus
  sign when it is negative.
\<close>

definition digit :: "nat \<Rightarrow> char" where
  "digit k = ''0123456789'' ! k"

fun decimal :: "nat \<Rightarrow> string" where
  "decimal n = (if n < 10 then [digit n] else decimal (n div 10) @ [digit (n mod 10)])"

declare decimal.simps [simp del]

definition Number_toString :: "int \<Rightarrow> string" where
  "Number_toString i = (if 0 \<le> i then decimal (nat i) else CHR ''-'' # decimal (nat (- i)))"

text \<open>
  \<^verbatim>\<open>String.prototype.split\<close> with a one-character separator: the pieces between the
  separators, at least one piece, empty pieces kept.
\<close>

fun split :: "char \<Rightarrow> string \<Rightarrow> string list" where
  "split sep [] = [[]]"
| "split sep (c # cs) =
     (if c = sep then [] # split sep cs
      else (case split sep cs of
              [] \<Rightarrow> [[c]]
            | piece # pieces \<Rightarrow> (c # piece) # pieces))"

text \<open>
  \<^verbatim>\<open>Buffer.from(s, 'hex')\<close> decodes pairs of hexadecimal digits and stops at the
  first pair that is not one; a trailing single character is dropped.
\<close>

definition unhex :: "char \<Rightarrow> nat option" where
  "unhex c =
     (let n = (of_char c :: nat) in
      if 48 \<le> n \<and> n \<le> 57 then Some (n - 48)
      else if 97 \<le> n \<and> n \<le> 102 then Some (n - 87)
      else if 65 \<le> n \<and> n \<le> 70 then Some (n - 55)
      else None)"

fun Buffer_from_hex :: "string \<Rightarrow> nat list" where
  "Buffer_from_hex (a # b # cs) =
     (case unhex a of
        None \<Rightarrow> []
      | Some x \<Rightarrow> (case unhex b of
                     None \<Rightarrow> []
                   | Some y \<Rightarrow> (16 * x + y) # Buffer_from_hex cs))"
| "Buffer_from_hex cs = []"

text \<open>
  \<^verbatim>\<open>crypto.timingSafeEqual\<close> throws when the two buffers differ in length and
  compares them otherwise.
\<close>

definition timingSafeEqual :: "nat list \<Rightarrow> nat list \<Rightarrow> error + bool" where
  "timingSafeEqual a b =
     (if length a \<noteq> length b then Inl (Error ''Input buffers must have the same byte length'')
      else Inr (a = b))"

section \<open>Credential handlers\<close>

text \<open>
  \<^verbatim>\<open>handlers/login_user.ts\<close>. The SHA-256 digest in hexadecimal belongs to the
  runtime's \<^verbatim>\<open>crypto\<close> module and is the parameter \<open>sha256_hex\<close>.
\<close>

definition hashPassword :: "(string \<Rightarrow> string) \<Rightarrow> string \<Rightarrow> string \<Rightarrow> string" where
  "hashPassword sha256_hex password salt = sha256_hex (password @ salt)"

text \<open>
  \<^verbatim>\<open>const [salt, hash] = storedHash.split(':')\<close> takes the first two pieces; a
  missing piece is \<^verbatim>\<open>undefined\<close>, and \<^verbatim>\<open>!salt || !hash\<close> holds for a missing or
  an empty piece. The \<^verbatim>\<open>try\<close>/\<^verbatim>\<open>catch\<close> turns the exception of the comparison
  into \<^verbatim>\<open>false\<close>.
\<close>

definition verifyPassword :: "(string \<Rightarrow> string) \<Rightarrow> string \<Rightarrow> string \<Rightarrow> bool" where
  "verifyPassword sha256_hex password storedHash =
     (case split (CHR '':'') storedHash of
        salt # hash # rest \<Rightarrow>
          if salt = [] \<or> hash = [] then False
          else (let hashedInput = hashPassword sha256_hex password salt in
                case timingSafeEqual (Buffer_from_hex hash) (Buffer_from_hex hashedInput) of
                  Inl e \<Rightarrow> False
                | Inr b \<Rightarrow> b)
      | pieces \<Rightarrow> False)"

definition loginUser ::
  "(string \<Rightarrow> string) \<Rightarrow> LoginUserInput \<Rightarrow> db \<Rightarrow> (error + auth_response) \<times> db" where
  "loginUser sha256_hex input d =
     (case filter (\<lambda>u. u_email u = in_email input) (users d) of
        [] \<Rightarrow> (Inl (Error ''Invalid email or password''), d)
      | user # others \<Rightarrow>
          if \<not> verifyPassword sha256_hex (in_password input) (u_password_hash user)
          then (Inl (Error ''Invalid email or password''), d)
          else (Inr \<lparr>ar_user = \<lparr>a_id = u_id user, a_email = u_email user,
                                 a_created_at = u_created_at user\<rparr>\<rparr>, d))"

text \<open>
  \<^verbatim>\<open>handlers/register_user.ts\<close>. \<^verbatim>\<open>Bun.password.hash\<close> with the bcrypt algorithm
  belongs to the runtime and is the parameter \<open>bcrypt\<close> (the random salt it draws is
  part of the function chosen for the call); \<open>now\<close> is the clock that fills
  \<^verbatim>\<open>created_at\<close>. The insert draws the next value of the \<^verbatim>\<open>serial\<close> sequence and
  returns the new row.
\<close>

definition insert_user :: "string \<Rightarrow> string \<Rightarrow> timestamp \<Rightarrow> db \<Rightarrow> user list \<times> db" where
  "insert_user email_v password_hash_v now d =
     (let row = \<lparr>u_id = users_id_seq d + 1, u_email = email_v,
                 u_password_hash = password_hash_v, u_created_at = now\<rparr>
      in ([row], d\<lparr>users := users d @ [row], users_id_seq := users_id_seq d + 1\<rparr>))"

definition registerUser ::
  "(string \<Rightarrow> string) \<Rightarrow> timestamp \<Rightarrow> RegisterUserInput \<Rightarrow> db \<Rightarrow> (error + auth_response) \<times> db" where
  "registerUser bcrypt now input d =
     (let existingUsers = filter (\<lambda>u. u_email u = in_email input) (users d) in
      if length existingUsers > 0 then (Inl (Error ''Email already registered''), d)
      else (let passwordHash = bcrypt (in_password input) in
            case insert_user (in_email input) passwordHash now d of
              (user # others, d') \<Rightarrow>
                (Inr \<lparr>ar_user = \<lparr>a_id = u_id user, a_email = u_email user,
                                  a_created_at = u_created_at user\<rparr>\<rparr>, d')
            | ([], d') \<Rightarrow> (Inl TypeError, d')))"

section \<open>Task handlers\<close>

text \<open>
  \<^verbatim>\<open>handlers/create_task.ts\<close>: the owner must exist, then the row is inserted
  with the next id of the sequence.
\<close>

definition insert_task :: "create_task_input \<Rightarrow> timestamp \<Rightarrow> db \<Rightarrow> task list \<times> db" where
  "insert_task input now d =
     (let row = \<lparr>t_id = tasks_id_seq d + 1, t_user_id = c_user_id input,
                 t_title = c_title input, t_description = c_description input,
                 t_due_date = c_due_date input, t_completed = c_completed input,
                 t_created_at = now\<rparr>
      in ([row], d\<lparr>tasks := tasks d @ [row], tasks_id_seq := tasks_id_seq d + 1\<rparr>))"

definition createTask :: "timestamp \<Rightarrow> create_task_input \<Rightarrow> db \<Rightarrow> (error + task) \<times> db" where
  "createTask now input d =
     (case filter (\<lambda>u. u_id u = c_user_id input) (users d) of
        [] \<Rightarrow> (Inl (Error (''User with id '' @ Number_toString (c_user_id input) @ '' not found'')), d)
      | found # others \<Rightarrow>
          (case insert_task input now d of
             (row # rows, d') \<Rightarrow> (Inr row, d')
           | ([], d') \<Rightarrow> (Inl TypeError, d')))"


text \<open>
  \<^verbatim>\<open>handlers/update_task.ts\<close>. \<^verbatim>\<open>updateData\<close> holds a key for each field the
  input defines; the \<^verbatim>\<open>UPDATE ... SET ... WHERE id = $1 RETURNING *\<close> rewrites
  those columns of every row with the id and returns the rewritten rows.
\<close>

record update_data =
  ud_title :: "string option"
  ud_description :: "string option"
  ud_due_date :: "timestamp option"
  ud_completed :: "bool option"

definition Object_keys :: "update_data \<Rightarrow> string list" where
  "Object_keys u =
     (case ud_title u of None \<Rightarrow> [] | Some v \<Rightarrow> [''title'']) @
     (case ud_description u of None \<Rightarrow> [] | Some v \<Rightarrow> [''description'']) @
     (case ud_due_date u of None \<Rightarrow> [] | Some v \<Rightarrow> [''due_date'']) @
     (case ud_completed u of None \<Rightarrow> [] | Some v \<Rightarrow> [''completed''])"

definition set_columns :: "update_data \<Rightarrow> task \<Rightarrow> task" where
  "set_columns u t =
     t\<lparr>t_title := (case ud_title u of None \<Rightarrow> t_title t | Some v \<Rightarrow> v),
       t_description := (case ud_description u of None \<Rightarrow> t_description t | Some v \<Rightarrow> v),
       t_due_date := (case ud_due_date u of None \<Rightarrow> t_due_date t | Some v \<Rightarrow> v),
       t_completed := (case ud_completed u of None \<Rightarrow> t_completed t | Some v \<Rightarrow> v)\<rparr>"

definition update_tasks_returning :: "update_data \<Rightarrow> int \<Rightarrow> db \<Rightarrow> task list \<times> db" where
  "update_tasks_returning u i d =
     (map (set_columns u) (filter (\<lambda>t. t_id t = i) (tasks d)),
      d\<lparr>tasks := map (\<lambda>t. if t_id t = i then set_columns u t else t) (tasks d)\<rparr>)"

definition updateTask :: "update_task_input \<Rightarrow> db \<Rightarrow> (error + task) \<times> db" where
  "updateTask input d =
     (case filter (\<lambda>t. t_id t = up_id input) (tasks d) of
        [] \<Rightarrow> (Inl (Error (''Task with id '' @ Number_toString (up_id input) @ '' not found'')), d)
      | existing # others \<Rightarrow>
          (let updateData = \<lparr>ud_title = up_title input, ud_description = up_description input,
                              ud_due_date = up_due_date input, ud_completed = up_completed input\<rparr>
           in if length (Object_keys updateData) = 0 then (Inr existing, d)
              else (case update_tasks_returning updateData (up_id input) d of
                      ([], d') \<Rightarrow>
                        (Inl (Error (''Failed to update task with id '' @ Number_toString (up_id input))), d')
                    | (row # rows, d') \<Rightarrow> (Inr row, d'))))"

text \<open>
  \<^verbatim>\<open>handlers/delete_task.ts\<close> and \<^verbatim>\<open>handlers/share_task.ts\<close>: both select by id
  and owner together.
\<close>

definition deleteTask :: "DeleteTaskInput \<Rightarrow> db \<Rightarrow> (error + delete_task_response) \<times> db" where
  "deleteTask input d =
     (let existingTasks = filter (\<lambda>t. t_id t = k_id input \<and> t_user_id t = k_user_id input) (tasks d)
      in if length existingTasks = 0 then (Inl (Error ''Task not found or access denied''), d)
         else (Inr \<lparr>success = True\<rparr>,
               d\<lparr>tasks := filter (\<lambda>t. \<not> (t_id t = k_id input \<and> t_user_id t = k_user_id input))
                                 (tasks d)\<rparr>))"

definition shareTask :: "ShareTaskInput \<Rightarrow> db \<Rightarrow> (error + share_task_response) \<times> db" where
  "shareTask input d =
     (case filter (\<lambda>t. t_id t = k_id input \<and> t_user_id t = k_user_id input) (tasks d) of
        [] \<Rightarrow> (Inl (Error ''Task not found or access denied''), d)
      | task # others \<Rightarrow>
          (Inr \<lparr>shareText = ''Check out my task: \"'' @ t_title task @ ''\"\<newline>\<newline>Description: ''
                   @ t_description task @ ''\<newline>\<newline>#TaskManagement #Productivity''\<rparr>, d))"

section \<open>Input schemas and procedures\<close>

text \<open>
  \<^verbatim>\<open>server/src/schema.ts\<close> and the router. The e-mail format test of the
  validation library is the parameter \<open>is_email\<close>; \<^verbatim>\<open>z.string().min(6)\<close> compares
  the length of the string. A procedure parses its input and calls the handler only with
  the parsed value.
\<close>

definition registerUserInputSchema :: "(string \<Rightarrow> bool) \<Rightarrow> credentials_input \<Rightarrow> error + RegisterUserInput" where
  "registerUserInputSchema is_email raw =
     (if is_email (in_email raw) \<and> length (in_password raw) \<ge> 6 then Inr raw else Inl BAD_REQUEST)"

definition loginUserInputSchema :: "(string \<Rightarrow> bool) \<Rightarrow> credentials_input \<Rightarrow> error + LoginUserInput" where
  "loginUserInputSchema is_email raw =
     (if is_email (in_email raw) then Inr raw else Inl BAD_REQUEST)"

definition registerUser_procedure ::
  "(string \<Rightarrow> bool) \<Rightarrow> (string \<Rightarrow> string) \<Rightarrow> timestamp \<Rightarrow> credentials_input \<Rightarrow> db
     \<Rightarrow> (error + auth_response) \<times> db" where
  "registerUser_procedure is_email bcrypt now raw d =
     (case registerUserInputSchema is_email raw of
        Inl e \<Rightarrow> (Inl e, d)
      | Inr input \<Rightarrow> registerUser bcrypt now input d)"

definition loginUser_procedure ::
  "(string \<Rightarrow> bool) \<Rightarrow> (string \<Rightarrow> string) \<Rightarrow> credentials_input \<Rightarrow> db
     \<Rightarrow> (error + auth_response) \<times> db" where
  "loginUser_procedure is_email sha256_hex raw d =
     (case loginUserInputSchema is_email raw of
        Inl e \<Rightarrow> (Inl e, d)
      | Inr input \<Rightarrow> loginUser sha256_hex input d)"

section \<open>Constraints of the schema\<close>

text \<open>
  What \<^verbatim>\<open>server/src/db/schema.ts\<close> declares: the primary keys, the unique e-mail,
  the foreign key from a task to its owner, and ids that were drawn from the sequences.
\<close>

definition constraints :: "db \<Rightarrow> bool" where
  "constraints d =
     (distinct (map u_id (users d)) \<and> distinct (map u_email (users d))
      \<and> distinct (map t_id (tasks d))
      \<and> (\<forall>i\<in>set (map u_id (users d)). i \<le> users_id_seq d)
      \<and> (\<forall>i\<in>set (map t_id (tasks d)). i \<le> tasks_id_seq d)
      \<and> set (map t_user_id (tasks d)) \<subseteq> set (map u_id (users d)))"

section \<open>Auxiliary facts\<close>

lemma split_no_sep: "sep \<notin> set s \<Longrightarrow> split sep s = [s]"
  by (induction s) auto

lemma split_append_sep: "sep \<notin> set s \<Longrightarrow> split sep (s @ sep # rest) = s # split sep rest"
  by (induction s) auto

lemma verifyPassword_no_sep: "CHR '':'' \<notin> set stored \<Longrightarrow> \<not> verifyPassword h p stored"
  by (simp add: verifyPassword_def split_no_sep)

lemma verifyPassword_empty_salt: "\<not> verifyPassword h p (CHR '':'' # rest)"
  by (simp add: verifyPassword_def split: list.splits)

lemma verifyPassword_empty_hash:
  assumes "CHR '':'' \<notin> set salt"
  shows "\<not> verifyPassword h p (salt @ '':'')" and "\<not> verifyPassword h p (salt @ ''::'' @ rest)"
  using assms split_append_sep [of "CHR '':''" salt "[]"]
    split_append_sep [of "CHR '':''" salt "CHR '':'' # rest"]
  by (simp_all add: verifyPassword_def split: list.splits)

text \<open>A key column without duplicates selects at most the one row.\<close>

lemma filter_key_distinct:
  "distinct (map f xs) \<Longrightarrow> x \<in> set xs \<Longrightarrow> filter (\<lambda>y. f y = f x) xs = [x]"
proof (induction xs)
  case Nil
  then show ?case by simp
next
  case (Cons a xs)
  show ?case
  proof (cases "a = x")
    case True
    with Cons.prems have "\<forall>y\<in>set xs. f y \<noteq> f x" by (auto simp: image_iff)
    then have "filter (\<lambda>y. f y = f x) xs = []" by (simp add: filter_empty_conv)
    with True show ?thesis by simp
  next
    case False
    with Cons.prems have "x \<in> set xs" "f a \<noteq> f x" "distinct (map f xs)" by (auto simp: image_iff)
    with Cons.IH show ?thesis by simp
  qed
qed




text \<open>What a successful registration leaves behind.\<close>

lemma registerUser_success:
  assumes "registerUser bcrypt now input d = (Inr r, d')"
  shows "filter (\<lambda>u. u_email u = in_email input) (users d) = []"
    and "d' = d\<lparr>users := users d @ [\<lparr>u_id = users_id_seq d + 1, u_email = in_email input,
                 u_password_hash = bcrypt (in_password input), u_created_at = now\<rparr>],
               users_id_seq := users_id_seq d + 1\<rparr>"
    and "r = \<lparr>ar_user = \<lparr>a_id = users_id_seq d + 1, a_email = in_email input, a_created_at = now\<rparr>\<rparr>"
  using assms
  by (auto simp: registerUser_def insert_user_def Let_def split: if_splits)

section \<open>The handlers keep the constraints\<close>

text \<open>
  The empty database satisfies the constraints and every handler that writes keeps them;
  the other handlers return the database they were given. So the hypothesis that a key
  column has no duplicates, in the theorems below, holds in every database the handlers
  build.
\<close>

lemma constraints_empty: "constraints \<lparr>users = [], tasks = [], users_id_seq = 0, tasks_id_seq = 0\<rparr>"
  by (simp add: constraints_def)

lemma fresh_key: "\<forall>i\<in>set ks. i \<le> (n::int) \<Longrightarrow> n + 1 \<notin> set ks"
  by auto

lemma bound_step: "\<forall>i\<in>set ks. i \<le> (n::int) \<Longrightarrow> \<forall>i\<in>set ks. i \<le> n + 1"
  by auto

lemma constraints_registerUser:
  assumes "constraints d"
  shows "constraints (snd (registerUser bcrypt now input d))"
proof (cases "filter (\<lambda>u. u_email u = in_email input) (users d) = []")
  case True
  then have fresh: "in_email input \<notin> set (map u_email (users d))"
    by (auto simp: filter_empty_conv)
  from True have r: "snd (registerUser bcrypt now input d)
      = d\<lparr>users := users d @ [\<lparr>u_id = users_id_seq d + 1, u_email = in_email input,
                 u_password_hash = bcrypt (in_password input), u_created_at = now\<rparr>],
          users_id_seq := users_id_seq d + 1\<rparr>"
    by (simp add: registerUser_def insert_user_def Let_def)
  from assms have a: "distinct (map u_id (users d))" "distinct (map u_email (users d))"
      "distinct (map t_id (tasks d))" "\<forall>i\<in>set (map u_id (users d)). i \<le> users_id_seq d"
      "\<forall>i\<in>set (map t_id (tasks d)). i \<le> tasks_id_seq d"
      "set (map t_user_id (tasks d)) \<subseteq> set (map u_id (users d))"
    by (simp_all add: constraints_def)
  from a(4) have n: "users_id_seq d + 1 \<notin> set (map u_id (users d))" by (rule fresh_key)
  from a(4) have b: "\<forall>i\<in>set (map u_id (users d)). i \<le> users_id_seq d + 1" by (rule bound_step)
  show ?thesis
    unfolding r constraints_def using a fresh n b by auto
next
  case False
  then have "snd (registerUser bcrypt now input d) = d"
    by (simp add: registerUser_def)
  with assms show ?thesis by simp
qed

lemma constraints_createTask:
  assumes "constraints d"
  shows "constraints (snd (createTask now input d))"
proof (cases "filter (\<lambda>u. u_id u = c_user_id input) (users d)")
  case Nil
  then have "snd (createTask now input d) = d"
    by (simp add: createTask_def)
  with assms show ?thesis by simp
next
  case (Cons found others)
  then have "found \<in> set (filter (\<lambda>u. u_id u = c_user_id input) (users d))" by simp
  then have owner: "c_user_id input \<in> set (map u_id (users d))" by force
  from Cons have r: "snd (createTask now input d)
      = d\<lparr>tasks := tasks d @ [\<lparr>t_id = tasks_id_seq d + 1, t_user_id = c_user_id input,
                 t_title = c_title input, t_description = c_description input,
                 t_due_date = c_due_date input, t_completed = c_completed input,
                 t_created_at = now\<rparr>],
          tasks_id_seq := tasks_id_seq d + 1\<rparr>"
    by (simp add: createTask_def insert_task_def Let_def)
  from assms have a: "distinct (map u_id (users d))" "distinct (map u_email (users d))"
      "distinct (map t_id (tasks d))" "\<forall>i\<in>set (map u_id (users d)). i \<le> users_id_seq d"
      "\<forall>i\<in>set (map t_id (tasks d)). i \<le> tasks_id_seq d"
      "set (map t_user_id (tasks d)) \<subseteq> set (map u_id (users d))"
    by (simp_all add: constraints_def)
  from a(5) have n: "tasks_id_seq d + 1 \<notin> set (map t_id (tasks d))" by (rule fresh_key)
  from a(5) have b: "\<forall>i\<in>set (map t_id (tasks d)). i \<le> tasks_id_seq d + 1" by (rule bound_step)
  show ?thesis
    unfolding r constraints_def using a owner n b by auto
qed

lemma updateTask_keeps_keys:
  "map t_id (tasks (snd (updateTask input d))) = map t_id (tasks d)
   \<and> map t_user_id (tasks (snd (updateTask input d))) = map t_user_id (tasks d)
   \<and> users (snd (updateTask input d)) = users d
   \<and> users_id_seq (snd (updateTask input d)) = users_id_seq d
   \<and> tasks_id_seq (snd (updateTask input d)) = tasks_id_seq d"
proof -
  have ids: "map t_id (map (\<lambda>t. if t_id t = i then set_columns u t else t) ts) = map t_id ts" for i u ts
    by (induction ts) (simp_all add: set_columns_def)
  have owners: "map t_user_id (map (\<lambda>t. if t_id t = i then set_columns u t else t) ts)
      = map t_user_id ts" for i u ts
    by (induction ts) (simp_all add: set_columns_def)
  show ?thesis
  proof (cases "filter (\<lambda>t. t_id t = up_id input) (tasks d)")
    case Nil
    then show ?thesis by (simp add: updateTask_def)
  next
    case (Cons existing others)
    then show ?thesis
      using ids owners
      by (simp add: updateTask_def update_tasks_returning_def Let_def del: map_map)
  qed
qed

lemma constraints_updateTask:
  assumes "constraints d"
  shows "constraints (snd (updateTask input d))"
  using assms unfolding constraints_def
  by (simp add: updateTask_keeps_keys)

lemma constraints_deleteTask:
  assumes "constraints d"
  shows "constraints (snd (deleteTask input d))"
proof (cases "filter (\<lambda>t. t_id t = k_id input \<and> t_user_id t = k_user_id input) (tasks d) = []")
  case True
  then have "snd (deleteTask input d) = d"
    by (simp add: deleteTask_def)
  with assms show ?thesis by simp
next
  case False
  then have r: "snd (deleteTask input d)
      = d\<lparr>tasks := filter (\<lambda>t. \<not> (t_id t = k_id input \<and> t_user_id t = k_user_id input)) (tasks d)\<rparr>"
    by (simp add: deleteTask_def)
  show ?thesis
    unfolding r using assms
    by (auto simp: constraints_def distinct_map_filter)
qed

section \<open>Registration followed by login\<close>

text \<open>
  C1. The claim is that a login with the e-mail and password just registered succeeds.
  The code does the opposite. \<^verbatim>\<open>registerUser\<close> stores what the runtime's bcrypt
  returns, a string of the form \<^verbatim>\<open>$2b$10$\<close> followed by 53 characters of the
  alphabet \<^verbatim>\<open>./A-Za-z0-9\<close>, which holds no colon; \<^verbatim>\<open>verifyPassword\<close> splits the
  stored string at the colon, finds no second piece and answers \<^verbatim>\<open>false\<close>. So for
  every bcrypt output without a colon, the login that follows a successful registration
  fails with \<^verbatim>\<open>Invalid email or password\<close>, whatever the digest function is.
\<close>

theorem register_then_login_rejected:
  assumes "CHR '':'' \<notin> set (bcrypt (in_password input))"
      and "registerUser bcrypt now input d = (Inr r, d')"
  shows "loginUser sha256_hex input d' = (Inl (Error ''Invalid email or password''), d')"
  using registerUser_success [OF assms(2)] assms(1)
  by (simp add: loginUser_def verifyPassword_no_sep)

theorem register_then_login_rejected_witness:
  "\<forall>sha256_hex.
     loginUser sha256_hex \<lparr>in_email = ''alice@example.com'', in_password = ''secret1''\<rparr>
       (snd (registerUser (\<lambda>p. ''$2b$10$N9qo8uLOickgx2ZMRZoMyeIjZAgcfl7p92ldGxad68LJZdL17lhWy'')
               1700000000000
               \<lparr>in_email = ''alice@example.com'', in_password = ''secret1''\<rparr>
               \<lparr>users = [], tasks = [], users_id_seq = 0, tasks_id_seq = 0\<rparr>))
     = (Inl (Error ''Invalid email or password''),
        \<lparr>users = [\<lparr>u_id = 1, u_email = ''alice@example.com'',
                    u_password_hash = ''$2b$10$N9qo8uLOickgx2ZMRZoMyeIjZAgcfl7p92ldGxad68LJZdL17lhWy'',
                    u_created_at = 1700000000000\<rparr>],
         tasks = [], users_id_seq = 1, tasks_id_seq = 0\<rparr>)"
  using register_then_login_rejected
    [of "\<lambda>p. ''$2b$10$N9qo8uLOickgx2ZMRZoMyeIjZAgcfl7p92ldGxad68LJZdL17lhWy''"
        "\<lparr>in_email = ''alice@example.com'', in_password = ''secret1''\<rparr>" 1700000000000
        "\<lparr>users = [], tasks = [], users_id_seq = 0, tasks_id_seq = 0\<rparr>"]
  by (simp add: registerUser_def insert_user_def Let_def)

section \<open>Login failures\<close>

text \<open>
  C4. A login with an e-mail no user has, and a login with the e-mail of a user whose
  stored credential does not verify the password, both fail, with the same error: the
  message \<^verbatim>\<open>Invalid email or password\<close>, and the database as it was. No login
  fails with any other error.
\<close>

theorem login_failures_indistinguishable:
  "((\<forall>u\<in>set (users d). u_email u \<noteq> in_email input)
      \<longrightarrow> loginUser sha256_hex input d = (Inl (Error ''Invalid email or password''), d))
   \<and> (distinct (map u_email (users d)) \<and> u \<in> set (users d) \<and> u_email u = in_email input
        \<and> \<not> verifyPassword sha256_hex (in_password input) (u_password_hash u)
      \<longrightarrow> loginUser sha256_hex input d = (Inl (Error ''Invalid email or password''), d))
   \<and> (\<forall>e. fst (loginUser sha256_hex input d) = Inl e \<longrightarrow> e = Error ''Invalid email or password'')"
proof (intro conjI impI allI)
  assume "\<forall>u\<in>set (users d). u_email u \<noteq> in_email input"
  then have "filter (\<lambda>u. u_email u = in_email input) (users d) = []"
    by (simp add: filter_empty_conv)
  then show "loginUser sha256_hex input d = (Inl (Error ''Invalid email or password''), d)"
    by (simp add: loginUser_def)
next
  assume a: "distinct (map u_email (users d)) \<and> u \<in> set (users d) \<and> u_email u = in_email input
        \<and> \<not> verifyPassword sha256_hex (in_password input) (u_password_hash u)"
  then have "filter (\<lambda>y. u_email y = u_email u) (users d) = [u]"
    using filter_key_distinct [of u_email "users d" u] by simp
  with a show "loginUser sha256_hex input d = (Inl (Error ''Invalid email or password''), d)"
    by (simp add: loginUser_def)
next
  fix e
  assume "fst (loginUser sha256_hex input d) = Inl e"
  then show "e = Error ''Invalid email or password''"
    by (auto simp: loginUser_def split: list.splits if_splits)
qed

text \<open>
  The witness: one user whose credential verifies \<^verbatim>\<open>secret1\<close> under a toy digest;
  the unknown e-mail and the wrong password give the same result.
\<close>

theorem login_failures_indistinguishable_witness:
  "loginUser (\<lambda>s. if s = ''secret1ab'' then ''c0de'' else ''0000'')
       \<lparr>in_email = ''nobody@example.com'', in_password = ''secret1''\<rparr>
       \<lparr>users = [\<lparr>u_id = 1, u_email = ''test@example.com'', u_password_hash = ''ab:c0de'',
                   u_created_at = 5\<rparr>],
        tasks = [], users_id_seq = 1, tasks_id_seq = 0\<rparr>
   = loginUser (\<lambda>s. if s = ''secret1ab'' then ''c0de'' else ''0000'')
       \<lparr>in_email = ''test@example.com'', in_password = ''wrong''\<rparr>
       \<lparr>users = [\<lparr>u_id = 1, u_email = ''test@example.com'', u_password_hash = ''ab:c0de'',
                   u_created_at = 5\<rparr>],
        tasks = [], users_id_seq = 1, tasks_id_seq = 0\<rparr>
   \<and> verifyPassword (\<lambda>s. if s = ''secret1ab'' then ''c0de'' else ''0000'') ''secret1'' ''ab:c0de''"
proof -
  let ?h = "\<lambda>s. if s = ''secret1ab'' then ''c0de'' else ''0000''"
  let ?u = "\<lparr>u_id = 1, u_email = ''test@example.com'', u_password_hash = ''ab:c0de'',
             u_created_at = 5\<rparr>"
  let ?d = "\<lparr>users = [?u], tasks = [], users_id_seq = 1, tasks_id_seq = 0\<rparr>"
  let ?i1 = "\<lparr>in_email = ''nobody@example.com'', in_password = ''secret1''\<rparr>"
  let ?i2 = "\<lparr>in_email = ''test@example.com'', in_password = ''wrong''\<rparr>"
  have n: "\<forall>u\<in>set (users ?d). u_email u \<noteq> in_email ?i1" by simp
  have v: "\<not> verifyPassword ?h (in_password ?i2) (u_password_hash ?u)"
    by (simp add: verifyPassword_def hashPassword_def timingSafeEqual_def unhex_def)
  have p: "distinct (map u_email (users ?d)) \<and> ?u \<in> set (users ?d) \<and> u_email ?u = in_email ?i2
        \<and> \<not> verifyPassword ?h (in_password ?i2) (u_password_hash ?u)"
    using v by simp
  have a: "loginUser ?h ?i1 ?d = (Inl (Error ''Invalid email or password''), ?d)"
    using login_failures_indistinguishable [of ?d ?i1 ?h, THEN conjunct1] n by (rule mp)
  have b: "loginUser ?h ?i2 ?d = (Inl (Error ''Invalid email or password''), ?d)"
    using login_failures_indistinguishable [of ?d ?i2 ?h ?u, THEN conjunct2, THEN conjunct1] p
    by (rule mp)
  have c: "verifyPassword ?h ''secret1'' ''ab:c0de''"
    by (simp add: verifyPassword_def hashPassword_def timingSafeEqual_def unhex_def)
  show ?thesis using a b c by (simp only: simp_thms)
qed

section \<open>Malformed credentials\<close>

text \<open>
  C8. A stored credential that does not parse into a salt and a hash never verifies, and
  the login of its user fails with \<^verbatim>\<open>Invalid email or password\<close>. Such a credential
  has no colon, or starts with a colon (empty salt), or has nothing between the first
  colon and the end or the next colon (empty hash): the three ways in which the test
  \<^verbatim>\<open>!salt || !hash\<close> of the code holds. The comparison that can throw sits
  in a \<^verbatim>\<open>try\<close>, so \<^const>\<open>verifyPassword\<close> returns a boolean on every input.
\<close>

theorem malformed_credential_rejected:
  assumes "CHR '':'' \<notin> set stored
           \<or> (\<exists>rest. stored = CHR '':'' # rest)
           \<or> (\<exists>salt rest. CHR '':'' \<notin> set salt
                  \<and> (stored = salt @ '':'' \<or> stored = salt @ ''::'' @ rest))"
  shows "\<not> verifyPassword sha256_hex password stored
         \<and> (filter (\<lambda>u. u_email u = in_email input) (users d) = u # others
              \<and> u_password_hash u = stored
            \<longrightarrow> loginUser sha256_hex input d = (Inl (Error ''Invalid email or password''), d))"
proof -
  have v: "\<not> verifyPassword h p stored" for h p
    using assms verifyPassword_no_sep verifyPassword_empty_salt verifyPassword_empty_hash
    by blast
  then show ?thesis
    by (auto simp: loginUser_def)
qed

theorem malformed_credential_rejected_witness:
  "\<forall>sha256_hex.
     \<not> verifyPassword sha256_hex ''securePassword123'' ''malformed_hash_without_salt''
     \<and> loginUser sha256_hex \<lparr>in_email = ''test@example.com'', in_password = ''securePassword123''\<rparr>
         \<lparr>users = [\<lparr>u_id = 1, u_email = ''test@example.com'',
                     u_password_hash = ''malformed_hash_without_salt'', u_created_at = 5\<rparr>],
          tasks = [], users_id_seq = 1, tasks_id_seq = 0\<rparr>
       = (Inl (Error ''Invalid email or password''),
          \<lparr>users = [\<lparr>u_id = 1, u_email = ''test@example.com'',
                      u_password_hash = ''malformed_hash_without_salt'', u_created_at = 5\<rparr>],
           tasks = [], users_id_seq = 1, tasks_id_seq = 0\<rparr>)"
proof
  fix h :: "string \<Rightarrow> string"
  let ?u = "\<lparr>u_id = 1, u_email = ''test@example.com'',
             u_password_hash = ''malformed_hash_without_salt'', u_created_at = 5\<rparr>"
  let ?d = "\<lparr>users = [?u], tasks = [], users_id_seq = 1, tasks_id_seq = 0\<rparr>"
  let ?i = "\<lparr>in_email = ''test@example.com'', in_password = ''securePassword123''\<rparr>"
  have m: "CHR '':'' \<notin> set ''malformed_hash_without_salt''
           \<or> (\<exists>rest. ''malformed_hash_without_salt'' = CHR '':'' # rest)
           \<or> (\<exists>salt rest. CHR '':'' \<notin> set salt
                  \<and> (''malformed_hash_without_salt'' = salt @ '':''
                      \<or> ''malformed_hash_without_salt'' = salt @ ''::'' @ rest))"
    by simp
  have f: "filter (\<lambda>u. u_email u = in_email ?i) (users ?d) = ?u # []
           \<and> u_password_hash ?u = ''malformed_hash_without_salt''"
    by simp
  note t = malformed_credential_rejected [OF m, of h "''securePassword123''" ?i ?d ?u "[]"]
  from t have a: "\<not> verifyPassword h ''securePassword123'' ''malformed_hash_without_salt''"
    by (rule conjunct1)
  from t [THEN conjunct2] f
  have b: "loginUser h ?i ?d = (Inl (Error ''Invalid email or password''), ?d)"
    by (rule mp)
  show "\<not> verifyPassword h ''securePassword123'' ''malformed_hash_without_salt''
        \<and> loginUser h ?i ?d = (Inl (Error ''Invalid email or password''), ?d)"
    using a b by (rule conjI)
qed

section \<open>Listing the tasks of an owner\<close>




section \<open>Updating a task\<close>





section \<open>Deleting and sharing a task\<close>



text \<open>
  C7. \<^verbatim>\<open>shareTask\<close> never changes the database, and for a row \<open>t\<close> with the id
  and owner of the input (in a table whose primary key has no duplicates) the text is the
  template with the title and the description of \<open>t\<close> inserted as they are.
\<close>

theorem shareTask_template:
  "snd (shareTask input d) = d
   \<and> (distinct (map t_id (tasks d)) \<and> t \<in> set (tasks d)
       \<and> t_id t = k_id input \<and> t_user_id t = k_user_id input
      \<longrightarrow> fst (shareTask input d)
          = Inr \<lparr>shareText = ''Check out my task: \"'' @ t_title t @ ''\"\<newline>\<newline>Description: ''
                     @ t_description t @ ''\<newline>\<newline>#TaskManagement #Productivity''\<rparr>)"
proof (intro conjI impI)
  show "snd (shareTask input d) = d"
    by (simp add: shareTask_def split: list.splits)
next
  assume a: "distinct (map t_id (tasks d)) \<and> t \<in> set (tasks d)
       \<and> t_id t = k_id input \<and> t_user_id t = k_user_id input"
  then have "filter (\<lambda>y. t_id y = k_id input) (tasks d) = [t]"
    using filter_key_distinct [of t_id "tasks d" t] by simp
  then have "filter (\<lambda>y. t_user_id y = k_user_id input) (filter (\<lambda>y. t_id y = k_id input) (tasks d)) = [t]"
    using a by simp
  then have "filter (\<lambda>y. t_id y = k_id input \<and> t_user_id y = k_user_id input) (tasks d) = [t]"
    by (simp add: conj_commute)
  then show "fst (shareTask input d)
          = Inr \<lparr>shareText = ''Check out my task: \"'' @ t_title t @ ''\"\<newline>\<newline>Description: ''
                     @ t_description t @ ''\<newline>\<newline>#TaskManagement #Productivity''\<rparr>"
    by (simp add: shareTask_def)
qed

text \<open>
  The witness: a title with double quotes and an ampersand, and an empty description.
\<close>

theorem shareTask_template_witness:
  "shareTask \<lparr>k_id = 3, k_user_id = 1\<rparr>
     \<lparr>users = [], tasks = [\<lparr>t_id = 3, t_user_id = 1, t_title = ''Fix \"critical\" bug & update docs'',
        t_description = '''', t_due_date = 1735603200000, t_completed = False, t_created_at = 5\<rparr>],
      users_id_seq = 1, tasks_id_seq = 3\<rparr>
   = (Inr \<lparr>shareText = ''Check out my task: \"Fix \"critical\" bug & update docs\"\<newline>\<newline>Description: \<newline>\<newline>#TaskManagement #Productivity''\<rparr>,
      \<lparr>users = [], tasks = [\<lparr>t_id = 3, t_user_id = 1, t_title = ''Fix \"critical\" bug & update docs'',
        t_description = '''', t_due_date = 1735603200000, t_completed = False, t_created_at = 5\<rparr>],
      users_id_seq = 1, tasks_id_seq = 3\<rparr>)"
proof -
  let ?t = "\<lparr>t_id = 3, t_user_id = 1, t_title = ''Fix \"critical\" bug & update docs'',
        t_description = '''', t_due_date = 1735603200000, t_completed = False, t_created_at = 5\<rparr>"
  let ?d = "\<lparr>users = [], tasks = [?t], users_id_seq = 1, tasks_id_seq = 3\<rparr>"
  let ?i = "\<lparr>k_id = 3, k_user_id = 1\<rparr>"
  have h: "distinct (map t_id (tasks ?d)) \<and> ?t \<in> set (tasks ?d)
       \<and> t_id ?t = k_id ?i \<and> t_user_id ?t = k_user_id ?i" by simp
  have a: "snd (shareTask ?i ?d) = ?d"
    using shareTask_template [of ?i ?d ?t] by (rule conjunct1)
  have b: "fst (shareTask ?i ?d) = Inr \<lparr>shareText = ''Check out my task: \"Fix \"critical\" bug & update docs\"\<newline>\<newline>Description: \<newline>\<newline>#TaskManagement #Productivity''\<rparr>"
    using mp [OF shareTask_template [of ?i ?d ?t, THEN conjunct2] h] by simp
  show ?thesis using a b by (simp only: prod_eq_iff fst_conv snd_conv simp_thms)
qed

section \<open>Duplicate e-mail addresses\<close>

text \<open>
  C9. A registration whose e-mail equals, character by character, the e-mail of a stored
  user fails with \<^verbatim>\<open>Email already registered\<close> and leaves the database as it was.
  A registration whose e-mail equals none of the stored ones succeeds and appends one
  row; the comparison is equality of strings, so an e-mail that differs from a stored one
  only in the case of a letter is a new e-mail.
\<close>

theorem duplicate_email_rejected:
  "((\<exists>u\<in>set (users d). u_email u = in_email input)
      \<longrightarrow> registerUser bcrypt now input d = (Inl (Error ''Email already registered''), d))
   \<and> ((\<forall>u\<in>set (users d). u_email u \<noteq> in_email input)
      \<longrightarrow> registerUser bcrypt now input d
          = (Inr \<lparr>ar_user = \<lparr>a_id = users_id_seq d + 1, a_email = in_email input,
                               a_created_at = now\<rparr>\<rparr>,
             d\<lparr>users := users d @ [\<lparr>u_id = users_id_seq d + 1, u_email = in_email input,
                                      u_password_hash = bcrypt (in_password input),
                                      u_created_at = now\<rparr>],
               users_id_seq := users_id_seq d + 1\<rparr>))"
proof (intro conjI impI)
  assume "\<exists>u\<in>set (users d). u_email u = in_email input"
  then have "filter (\<lambda>u. u_email u = in_email input) (users d) \<noteq> []"
    by (simp add: filter_empty_conv)
  then show "registerUser bcrypt now input d = (Inl (Error ''Email already registered''), d)"
    by (simp add: registerUser_def)
next
  assume "\<forall>u\<in>set (users d). u_email u \<noteq> in_email input"
  then have "filter (\<lambda>u. u_email u = in_email input) (users d) = []"
    by (simp add: filter_empty_conv)
  then show "registerUser bcrypt now input d
          = (Inr \<lparr>ar_user = \<lparr>a_id = users_id_seq d + 1, a_email = in_email input,
                               a_created_at = now\<rparr>\<rparr>,
             d\<lparr>users := users d @ [\<lparr>u_id = users_id_seq d + 1, u_email = in_email input,
                                      u_password_hash = bcrypt (in_password input),
                                      u_created_at = now\<rparr>],
               users_id_seq := users_id_seq d + 1\<rparr>)"
    by (simp add: registerUser_def insert_user_def Let_def)
qed

text \<open>
  The witness: after \<^verbatim>\<open>a@b.com\<close> is registered, \<^verbatim>\<open>a@b.com\<close> is refused and
  \<^verbatim>\<open>A@b.com\<close> is accepted.
\<close>

theorem duplicate_email_rejected_witness:
  "registerUser (\<lambda>p. ''$2b$10$'' @ p) 9 \<lparr>in_email = ''a@b.com'', in_password = ''another1''\<rparr>
     (snd (registerUser (\<lambda>p. ''$2b$10$'' @ p) 8 \<lparr>in_email = ''a@b.com'', in_password = ''secret1''\<rparr>
             \<lparr>users = [], tasks = [], users_id_seq = 0, tasks_id_seq = 0\<rparr>))
   = (Inl (Error ''Email already registered''),
      \<lparr>users = [\<lparr>u_id = 1, u_email = ''a@b.com'', u_password_hash = ''$2b$10$secret1'', u_created_at = 8\<rparr>],
      tasks = [], users_id_seq = 1, tasks_id_seq = 0\<rparr>)
  \<and> registerUser (\<lambda>p. ''$2b$10$'' @ p) 9 \<lparr>in_email = ''A@b.com'', in_password = ''another1''\<rparr>
     (snd (registerUser (\<lambda>p. ''$2b$10$'' @ p) 8 \<lparr>in_email = ''a@b.com'', in_password = ''secret1''\<rparr>
             \<lparr>users = [], tasks = [], users_id_seq = 0, tasks_id_seq = 0\<rparr>))
   = (Inr \<lparr>ar_user = \<lparr>a_id = 2, a_email = ''A@b.com'', a_created_at = 9\<rparr>\<rparr>,
      \<lparr>users = [\<lparr>u_id = 1, u_email = ''a@b.com'', u_password_hash = ''$2b$10$secret1'', u_created_at = 8\<rparr>,
                 \<lparr>u_id = 2, u_email = ''A@b.com'', u_password_hash = ''$2b$10$another1'', u_created_at = 9\<rparr>],
      tasks = [], users_id_seq = 2, tasks_id_seq = 0\<rparr>)"
proof -
  let ?b = "\<lambda>p. ''$2b$10$'' @ p"
  let ?d0 = "\<lparr>users = [], tasks = [], users_id_seq = 0, tasks_id_seq = 0\<rparr>"
  let ?u = "\<lparr>u_id = 1, u_email = ''a@b.com'', u_password_hash = ''$2b$10$secret1'', u_created_at = 8\<rparr>"
  let ?d1 = "\<lparr>users = [?u], tasks = [], users_id_seq = 1, tasks_id_seq = 0\<rparr>"
  let ?i = "\<lparr>in_email = ''a@b.com'', in_password = ''secret1''\<rparr>"
  let ?j = "\<lparr>in_email = ''a@b.com'', in_password = ''another1''\<rparr>"
  let ?k = "\<lparr>in_email = ''A@b.com'', in_password = ''another1''\<rparr>"
  have f0: "\<forall>u\<in>set (users ?d0). u_email u \<noteq> in_email ?i" by simp
  have first: "snd (registerUser ?b 8 ?i ?d0) = ?d1"
    using mp [OF duplicate_email_rejected [of ?d0 ?i ?b 8, THEN conjunct2] f0] by simp
  have dup: "\<exists>u\<in>set (users ?d1). u_email u = in_email ?j" by simp
  have a: "registerUser ?b 9 ?j ?d1 = (Inl (Error ''Email already registered''), ?d1)"
    using duplicate_email_rejected [of ?d1 ?j ?b 9, THEN conjunct1] dup by (rule mp)
  have fresh: "\<forall>u\<in>set (users ?d1). u_email u \<noteq> in_email ?k" by simp
  have b: "registerUser ?b 9 ?k ?d1
      = (Inr \<lparr>ar_user = \<lparr>a_id = 2, a_email = ''A@b.com'', a_created_at = 9\<rparr>\<rparr>,
         \<lparr>users = [?u, \<lparr>u_id = 2, u_email = ''A@b.com'', u_password_hash = ''$2b$10$another1'', u_created_at = 9\<rparr>],
          tasks = [], users_id_seq = 2, tasks_id_seq = 0\<rparr>)"
    using mp [OF duplicate_email_rejected [of ?d1 ?k ?b 9, THEN conjunct2] fresh] by simp
  from a b show ?thesis unfolding first by (rule conjI)
qed

section \<open>Password length at the procedure boundary\<close>

text \<open>
  C10. The registration procedure answers a password of fewer than six characters with
  \<^verbatim>\<open>BAD_REQUEST\<close> and the database unchanged; the handler is not the source of
  that error, since \<^verbatim>\<open>registerUser\<close> never returns it. The login schema accepts
  every password once the e-mail has the right format, and an input that passes its
  schema reaches the handler as it is.
\<close>

theorem short_password_rejected_at_boundary:
  "(length (in_password raw) < 6
      \<longrightarrow> registerUserInputSchema is_email raw = Inl BAD_REQUEST
          \<and> registerUser_procedure is_email bcrypt now raw d = (Inl BAD_REQUEST, d))
   \<and> (is_email (in_email raw)
      \<longrightarrow> loginUserInputSchema is_email raw = Inr raw
          \<and> loginUser_procedure is_email sha256_hex raw d = loginUser sha256_hex raw d)
   \<and> (is_email (in_email raw) \<and> length (in_password raw) \<ge> 6
      \<longrightarrow> registerUser_procedure is_email bcrypt now raw d = registerUser bcrypt now raw d)
   \<and> fst (registerUser bcrypt now raw d) \<noteq> Inl BAD_REQUEST"
  by (auto simp: registerUserInputSchema_def registerUser_procedure_def loginUserInputSchema_def
      loginUser_procedure_def registerUser_def insert_user_def Let_def)

text \<open>
  The witness: the five-character password of the handler's own test is refused by the
  procedure, accepted by the login schema, and accepted by the handler when called
  directly.
\<close>

theorem short_password_rejected_at_boundary_witness:
  "registerUser_procedure (\<lambda>e. CHR ''@'' \<in> set e) (\<lambda>p. ''$2b$10$'' @ p) 9
     \<lparr>in_email = ''short@example.com'', in_password = ''12345''\<rparr>
     \<lparr>users = [], tasks = [], users_id_seq = 0, tasks_id_seq = 0\<rparr>
   = (Inl BAD_REQUEST, \<lparr>users = [], tasks = [], users_id_seq = 0, tasks_id_seq = 0\<rparr>)
  \<and> loginUserInputSchema (\<lambda>e. CHR ''@'' \<in> set e) \<lparr>in_email = ''short@example.com'', in_password = ''12345''\<rparr>
   = Inr \<lparr>in_email = ''short@example.com'', in_password = ''12345''\<rparr>
  \<and> fst (registerUser (\<lambda>p. ''$2b$10$'' @ p) 9
     \<lparr>in_email = ''short@example.com'', in_password = ''12345''\<rparr>
     \<lparr>users = [], tasks = [], users_id_seq = 0, tasks_id_seq = 0\<rparr>)
   = Inr \<lparr>ar_user = \<lparr>a_id = 1, a_email = ''short@example.com'', a_created_at = 9\<rparr>\<rparr>"
proof -
  let ?m = "\<lambda>e. CHR ''@'' \<in> set e"
  let ?b = "\<lambda>p. ''$2b$10$'' @ p"
  let ?raw = "\<lparr>in_email = ''short@example.com'', in_password = ''12345''\<rparr>"
  let ?d = "\<lparr>users = [], tasks = [], users_id_seq = 0, tasks_id_seq = 0\<rparr>"
  note t = short_password_rejected_at_boundary [of ?raw ?m ?b 9 ?d]
  have s: "length (in_password ?raw) < 6" by simp
  have e: "?m (in_email ?raw)" by simp
  have a: "registerUser_procedure ?m ?b 9 ?raw ?d = (Inl BAD_REQUEST, ?d)"
    using mp [OF t [THEN conjunct1] s] by (rule conjunct2)
  have b: "loginUserInputSchema ?m ?raw = Inr ?raw"
    using mp [OF t [THEN conjunct2, THEN conjunct1] e] by (rule conjunct1)
  have c: "fst (registerUser ?b 9 ?raw ?d)
      = Inr \<lparr>ar_user = \<lparr>a_id = 1, a_email = ''short@example.com'', a_created_at = 9\<rparr>\<rparr>"
    by (simp add: registerUser_def insert_user_def Let_def)
  from a b c show ?thesis by (intro conjI)
qed

end
